theory Spec2Isabelle
  imports Main
begin

text \<open>
  The asset synchronisation of the launcher: the fingerprint of a file
  (\<open>calculate_fast_hash\<close> in \<open>main.py\<close> and in \<open>files_report.py\<close>), the check of the
  local files against the manifest (\<open>Downloader.check_files\<close>) and the transfer of the
  files to download (\<open>Downloader.process_queue\<close>), as functions on an explicit
  filesystem and an explicit downloader state.
\<close>

section \<open>Platform and filesystem\<close>

text \<open>
  Python \<open>bytes\<close> are lists of 8-bit characters. A timestamp is the value of
  \<open>st_mtime\<close> at the resolution of the platform; the source only ever uses it
  through \<open>str()\<close>, whose float printing is a parameter of the platform.
\<close>

type_synonym bytes = "char list"
type_synonym path = string
type_synonym timestamp = nat

datatype exn = OSError | ZeroDivisionError | ValueError | KeyError | TypeError

text \<open>
  What the program takes from its libraries and its operating system:
  \<^item> \<open>blake2b\<close>: \<open>hashlib.blake2b(digest_size=32)\<close>, the digest of everything fed;
  \<^item> \<open>str_float\<close>: \<open>str()\<close> of a float timestamp;
  \<^item> \<open>mtime_on_write\<close>: the clock reading stamped on a file when it is written;
  \<^item> \<open>read_fault\<close>: \<open>Some k\<close> when the read call number \<open>k\<close> (from 0) on a
    handle of that path raises an I/O error;
  \<^item> \<open>mkdir_fails\<close>: creating the parent directories of that path raises.
\<close>

record platform =
  blake2b :: "bytes \<Rightarrow> bytes"
  str_float :: "timestamp \<Rightarrow> string"
  mtime_on_write :: "path \<Rightarrow> timestamp"
  read_fault :: "path \<Rightarrow> nat option"
  mkdir_fails :: "path \<Rightarrow> bool"

record inode =
  content :: bytes
  st_mtime :: timestamp

type_synonym filesystem = "path \<rightharpoonup> inode"

text \<open>
  An open binary read handle: the bytes of the file, the position, the number of read
  calls made, and the spans \<open>(offset, length)\<close> that the read calls returned.
\<close>

record handle =
  h_path :: path
  h_data :: bytes
  h_pos :: nat
  h_calls :: nat
  h_spans :: "(nat \<times> nat) list"

definition open_rb :: "filesystem \<Rightarrow> path \<Rightarrow> exn + handle" where
  "open_rb fs p =
     (case fs p of
        None \<Rightarrow> Inl OSError
      | Some f \<Rightarrow> Inr \<lparr>h_path = p, h_data = content f, h_pos = 0, h_calls = 0, h_spans = []\<rparr>)"

text \<open>\<open>f.read(n)\<close> with \<open>Some n\<close>, \<open>f.read()\<close> with \<open>None\<close>.\<close>

definition read_handle :: "platform \<Rightarrow> handle \<Rightarrow> nat option \<Rightarrow> exn + (bytes \<times> handle)" where
  "read_handle P h n =
     (if read_fault P (h_path h) = Some (h_calls h) then Inl OSError
      else
        let rest = drop (h_pos h) (h_data h);
            got = (case n of None \<Rightarrow> rest | Some k \<Rightarrow> take k rest)
        in Inr (got, h\<lparr>h_pos := h_pos h + length got,
                       h_calls := h_calls h + 1,
                       h_spans := h_spans h @ [(h_pos h, length got)]\<rparr>))"

text \<open>\<open>f.seek(-k, os.SEEK_END)\<close>: a position before the start of the file raises.\<close>

definition seek_end :: "handle \<Rightarrow> nat \<Rightarrow> exn + handle" where
  "seek_end h k =
     (if length (h_data h) < k then Inl OSError
      else Inr (h\<lparr>h_pos := length (h_data h) - k\<rparr>))"

definition getsize :: "filesystem \<Rightarrow> path \<Rightarrow> exn + nat" where
  "getsize fs p = (case fs p of None \<Rightarrow> Inl OSError | Some f \<Rightarrow> Inr (length (content f)))"

text \<open>\<open>os.stat\<close>: the pair \<open>(st_size, st_mtime)\<close>.\<close>

definition os_stat :: "filesystem \<Rightarrow> path \<Rightarrow> exn + (nat \<times> timestamp)" where
  "os_stat fs p =
     (case fs p of None \<Rightarrow> Inl OSError | Some f \<Rightarrow> Inr (length (content f), st_mtime f))"

section \<open>Text encodings\<close>

definition digit_char :: "nat \<Rightarrow> char" where
  "digit_char d = ''0123456789abcdef'' ! d"

text \<open>\<open>str()\<close> of a non-negative integer.\<close>

fun str_nat :: "nat \<Rightarrow> string" where
  "str_nat n = (if n < 10 then [digit_char n] else str_nat (n div 10) @ [digit_char (n mod 10)])"

declare str_nat.simps [simp del]

text \<open>\<open>.encode()\<close> of an ASCII string.\<close>

definition encode :: "string \<Rightarrow> bytes" where
  "encode s = s"

definition hex_byte :: "char \<Rightarrow> string" where
  "hex_byte c = [digit_char ((of_char c :: nat) div 16), digit_char ((of_char c :: nat) mod 16)]"

definition hex_lower :: "bytes \<Rightarrow> string" where
  "hex_lower bs = concat (map hex_byte bs)"

section \<open>The hasher\<close>

text \<open>The state of a \<open>hashlib\<close> hasher is the sequence of bytes fed to it so far.\<close>

type_synonym hasher = bytes

definition update :: "hasher \<Rightarrow> bytes \<Rightarrow> hasher" where
  "update h d = h @ d"

definition hexdigest :: "platform \<Rightarrow> hasher \<Rightarrow> string" where
  "hexdigest P h = hex_lower (blake2b P h)"

section \<open>Fingerprint: \<open>calculate_fast_hash\<close>\<close>

text \<open>
  The body of the \<open>try\<close> block of \<open>calculate_fast_hash\<close> in \<open>main.py\<close>: the hasher
  and the handle when the block ends, or the exception it raised.
\<close>

definition fast_hash_body :: "platform \<Rightarrow> filesystem \<Rightarrow> path \<Rightarrow> exn + (hasher \<times> handle)" where
  "fast_hash_body P fs filepath =
     (case open_rb fs filepath of Inl e \<Rightarrow> Inl e | Inr f \<Rightarrow>
      case read_handle P f (Some 65536) of Inl e \<Rightarrow> Inl e | Inr (head, f1) \<Rightarrow>
      let hasher = update [] head in
      case getsize fs filepath of Inl e \<Rightarrow> Inl e | Inr sz \<Rightarrow>
      case (if sz > 131072
            then (case seek_end f1 65536 of Inl e \<Rightarrow> Inl e | Inr f2 \<Rightarrow>
                  case read_handle P f2 None of Inl e \<Rightarrow> Inl e | Inr (tail, f3) \<Rightarrow>
                  Inr (update hasher tail, f3))
            else Inr (hasher, f1)) of Inl e \<Rightarrow> Inl e | Inr (hasher1, f4) \<Rightarrow>
      case os_stat fs filepath of Inl e \<Rightarrow> Inl e | Inr (st_size, mtime) \<Rightarrow>
      let hasher2 = update hasher1 (encode (str_nat st_size));
          hasher3 = update hasher2 (encode (str_float P mtime))
      in Inr (hasher3, f4))"

definition calculate_fast_hash :: "platform \<Rightarrow> filesystem \<Rightarrow> path \<Rightarrow> string" where
  "calculate_fast_hash P fs filepath =
     (case fast_hash_body P fs filepath of
        Inl e \<Rightarrow> ''error''
      | Inr (hasher, f) \<Rightarrow> hexdigest P hasher)"

text \<open>The function of the same name in \<open>files_report.py\<close>, the manifest generator.\<close>

definition report_fast_hash_body :: "platform \<Rightarrow> filesystem \<Rightarrow> path \<Rightarrow> exn + (hasher \<times> handle)" where
  "report_fast_hash_body P fs filepath =
     (case open_rb fs filepath of Inl e \<Rightarrow> Inl e | Inr f \<Rightarrow>
      case read_handle P f (Some 65536) of Inl e \<Rightarrow> Inl e | Inr (head, f1) \<Rightarrow>
      let hasher = update [] head in
      case getsize fs filepath of Inl e \<Rightarrow> Inl e | Inr sz \<Rightarrow>
      case (if sz > 131072
            then (case seek_end f1 65536 of Inl e \<Rightarrow> Inl e | Inr f2 \<Rightarrow>
                  case read_handle P f2 None of Inl e \<Rightarrow> Inl e | Inr (tail, f3) \<Rightarrow>
                  Inr (update hasher tail, f3))
            else Inr (hasher, f1)) of Inl e \<Rightarrow> Inl e | Inr (hasher1, f4) \<Rightarrow>
      case os_stat fs filepath of Inl e \<Rightarrow> Inl e | Inr (st_size, mtime) \<Rightarrow>
      let hasher2 = update hasher1 (encode (str_nat st_size));
          hasher3 = update hasher2 (encode (str_float P mtime))
      in Inr (hasher3, f4))"

definition report_calculate_fast_hash :: "platform \<Rightarrow> filesystem \<Rightarrow> path \<Rightarrow> string" where
  "report_calculate_fast_hash P fs filepath =
     (case report_fast_hash_body P fs filepath of
        Inl e \<Rightarrow> ''error''
      | Inr (hasher, f) \<Rightarrow> hexdigest P hasher)"

text \<open>
  The fingerprint as the specification words it: the lowercase hex of the hash fed with
  the first 65536 bytes, the last 65536 bytes when the size exceeds 131072, the decimal
  size and the printed modification time.
\<close>

definition fingerprint_spec :: "platform \<Rightarrow> inode \<Rightarrow> string" where
  "fingerprint_spec P f =
     hex_lower (blake2b P
       (take 65536 (content f)
        @ (if length (content f) > 131072
           then drop (length (content f) - 65536) (content f) else [])
        @ str_nat (length (content f))
        @ str_float P (st_mtime f)))"

text \<open>The bytes of the file that the read calls of one fingerprint returned.\<close>

definition bytes_read :: "platform \<Rightarrow> filesystem \<Rightarrow> path \<Rightarrow> (nat \<times> nat) list" where
  "bytes_read P fs filepath =
     (case fast_hash_body P fs filepath of Inl e \<Rightarrow> [] | Inr (hasher, f) \<Rightarrow> h_spans f)"

section \<open>Paths\<close>

text \<open>
  Paths are normalised strings with \<open>/\<close> as the separator: \<open>Path(folder) / rel\<close>,
  \<open>p.relative_to(folder)\<close> (which raises when \<open>p\<close> is not below \<open>folder\<close>) and
  \<open>p.name\<close>.
\<close>

definition join_path :: "path \<Rightarrow> string \<Rightarrow> path" where
  "join_path folder rel = folder @ ''/'' @ rel"

definition relative_to :: "path \<Rightarrow> path \<Rightarrow> exn + string" where
  "relative_to p folder =
     (if take (length folder + 1) p = folder @ ''/''
      then Inr (drop (length folder + 1) p) else Inl ValueError)"

definition path_name :: "path \<Rightarrow> string" where
  "path_name p = rev (takeWhile (\<lambda>c. c \<noteq> CHR ''/'') (rev p))"

section \<open>Manifest\<close>

text \<open>
  One entry of \<open>files\<close>: an object with the strings \<open>path\<close> and \<open>hash\<close> and an
  optional integer \<open>size\<close> (read with \<open>file_info.get("size", 0)\<close>).
\<close>

record file_info =
  path :: string
  size_opt :: "int option"
  hash :: string

definition get_size :: "file_info \<Rightarrow> int" where
  "get_size file_info = (case size_opt file_info of None \<Rightarrow> 0 | Some n \<Rightarrow> n)"

text \<open>
  The value under the key \<open>files\<close> of the manifest document: \<open>null\<close>, a number, or a
  list of entries. The document itself is the object returned by \<open>json.load\<close>; its
  \<open>files\<close> is \<open>None\<close> when the key is absent.
\<close>

datatype files_member = FilesNull | FilesNumber int | FilesList "file_info list"

record manifest_data =
  files :: "files_member option"

definition py_len :: "files_member \<Rightarrow> exn + nat" where
  "py_len v = (case v of FilesList xs \<Rightarrow> Inr (length xs) | _ \<Rightarrow> Inl TypeError)"

definition truthy :: "files_member \<Rightarrow> bool" where
  "truthy v = (case v of FilesNull \<Rightarrow> False | FilesNumber n \<Rightarrow> n \<noteq> 0 | FilesList xs \<Rightarrow> xs \<noteq> [])"

section \<open>The downloader\<close>

datatype status =
    NoStatus
  | ManifestNotLoaded
  | FileMissing string
  | FileNotVerified string
  | FileOK string
  | SourceNotFound path
  | CopyProgress string nat nat
  | CopyError exn
  | VerifyError exn
  | CriticalError exn
  | AllDownloaded
  | ReadyToLaunch
  | Preparing

datatype total_status =
    NoTotal
  | ManifestLoadError
  | Checking nat nat
  | Downloading int nat int int
  | Finished nat int
  | AllCurrent nat
  | FoundToDownload nat nat int

text \<open>
  The fields of \<open>Downloader\<close>. \<open>page\<close> holds what the page has rendered: one pair of
  the two status texts for every \<open>page.update()\<close>. The progress percentages are floats
  and are left out; the divisions that compute them are kept where they can raise.
  \<open>test_mode\<close> is set to \<open>True\<close> by the constructor and never assigned again, so the
  queue is processed by the local copy branch.
\<close>

record downloader =
  page :: "(total_status \<times> status) list"
  download_queue :: "(path \<times> path \<times> int) list"
  current_download :: "(path \<times> path \<times> int) option"
  manifest :: "manifest_data option"
  files_to_download :: "file_info list"
  source_folder :: path
  download_folder :: path
  status_text :: status
  total_status_text :: total_status
  total_files :: nat
  processed_files :: nat
  total_size_bytes :: int
  downloaded_bytes :: int
  files_requiring_download :: nat
  size_requiring_download :: int

definition Downloader :: "path \<Rightarrow> path \<Rightarrow> downloader" where
  "Downloader src dl =
     \<lparr>page = [], download_queue = [], current_download = None, manifest = None,
      files_to_download = [], source_folder = src, download_folder = dl,
      status_text = NoStatus, total_status_text = NoTotal, total_files = 0,
      processed_files = 0, total_size_bytes = 0, downloaded_bytes = 0,
      files_requiring_download = 0, size_requiring_download = 0\<rparr>"

definition update_progress :: "downloader \<Rightarrow> downloader" where
  "update_progress D = D\<lparr>page := page D @ [(total_status_text D, status_text D)]\<rparr>"

text \<open>
  \<open>load_manifest\<close>: \<open>doc\<close> is the document parsed from the manifest file, \<open>None\<close> when
  opening or parsing it raises.
\<close>

definition load_manifest :: "manifest_data option \<Rightarrow> downloader \<Rightarrow> manifest_data option \<times> downloader" where
  "load_manifest doc D =
     (case doc of
        None \<Rightarrow> (None, D\<lparr>total_files := 0\<rparr>)
      | Some manifest_data \<Rightarrow>
          (case py_len (case files manifest_data of None \<Rightarrow> FilesList [] | Some v \<Rightarrow> v) of
             Inl e \<Rightarrow> (None, D\<lparr>total_files := 0\<rparr>)
           | Inr n \<Rightarrow> (Some manifest_data, D\<lparr>total_files := n, processed_files := 0\<rparr>)))"

text \<open>
  The body of the loop of \<open>check_files\<close>. \<open>calculate_fast_hash\<close> catches every
  exception itself, so the \<open>except\<close> branch around it is never taken.
\<close>

definition mark_for_download :: "file_info \<Rightarrow> status \<Rightarrow> downloader \<Rightarrow> downloader" where
  "mark_for_download file_info st D =
     D\<lparr>status_text := st,
       files_to_download := files_to_download D @ [file_info],
       files_requiring_download := files_requiring_download D + 1,
       size_requiring_download := size_requiring_download D + get_size file_info\<rparr>"

definition check_one :: "platform \<Rightarrow> filesystem \<Rightarrow> file_info \<Rightarrow> downloader \<Rightarrow> downloader" where
  "check_one P fs file_info D =
     (let file_path = join_path (download_folder D) (path file_info);
          expected_hash = hash file_info;
          D1 = D\<lparr>processed_files := processed_files D + 1\<rparr>;
          D2 = D1\<lparr>total_status_text := Checking (processed_files D1) (total_files D1)\<rparr>;
          D3 = (if fs file_path = None
                then mark_for_download file_info (FileMissing (path_name file_path)) D2
                else
                  let current_hash = calculate_fast_hash P fs file_path in
                  if current_hash \<noteq> expected_hash
                  then mark_for_download file_info (FileNotVerified (path_name file_path)) D2
                  else D2\<lparr>status_text := FileOK (path_name file_path)\<rparr>)
      in update_progress D3)"

fun check_loop :: "platform \<Rightarrow> filesystem \<Rightarrow> file_info list \<Rightarrow> downloader \<Rightarrow> downloader" where
  "check_loop P fs [] D = D"
| "check_loop P fs (file_info # rest) D = check_loop P fs rest (check_one P fs file_info D)"

definition check_files ::
  "platform \<Rightarrow> filesystem \<Rightarrow> manifest_data option \<Rightarrow> downloader \<Rightarrow> exn + (file_info list \<times> downloader)" where
  "check_files P fs doc D0 =
     (let (m, D1) = load_manifest doc D0;
          D = D1\<lparr>manifest := m\<rparr>;
          fm = (case m of None \<Rightarrow> None | Some manifest_data \<Rightarrow> files manifest_data)
      in if (case fm of None \<Rightarrow> True | Some v \<Rightarrow> \<not> truthy v)
         then Inr ([], update_progress
                (D\<lparr>status_text := ManifestNotLoaded, total_status_text := ManifestLoadError\<rparr>))
         else
           (case fm of
              Some (FilesList xs) \<Rightarrow>
                let D2 = D\<lparr>total_files := length xs, processed_files := 0,
                           files_to_download := [], files_requiring_download := 0,
                           size_requiring_download := 0\<rparr>;
                    D3 = check_loop P fs xs D2
                in Inr (files_to_download D3, D3)
            | _ \<Rightarrow> Inl TypeError))"

definition add_download :: "file_info \<Rightarrow> downloader \<Rightarrow> downloader" where
  "add_download file_info D =
     (let source_path = join_path (source_folder D) (path file_info);
          destination = join_path (download_folder D) (path file_info)
      in D\<lparr>download_queue := download_queue D @ [(source_path, destination, get_size file_info)]\<rparr>)"

section \<open>Transfer: \<open>process_queue\<close>\<close>

text \<open>
  Writing: \<open>open(destination, 'wb')\<close> creates or truncates the file, \<open>dst.write\<close>
  appends to it (writes are taken as unbuffered), \<open>unlink\<close> removes it.
\<close>

definition open_wb :: "platform \<Rightarrow> filesystem \<Rightarrow> path \<Rightarrow> filesystem" where
  "open_wb P fs p = fs(p \<mapsto> \<lparr>content = [], st_mtime = mtime_on_write P p\<rparr>)"

definition write_bytes :: "platform \<Rightarrow> filesystem \<Rightarrow> path \<Rightarrow> bytes \<Rightarrow> filesystem" where
  "write_bytes P fs p chunk =
     fs(p \<mapsto> \<lparr>content = (case fs p of None \<Rightarrow> [] | Some f \<Rightarrow> content f) @ chunk,
               st_mtime = mtime_on_write P p\<rparr>)"

definition unlink_if_exists :: "filesystem \<Rightarrow> path \<Rightarrow> filesystem" where
  "unlink_if_exists fs p = (if fs p \<noteq> None then fs(p := None) else fs)"

definition chunk_size :: nat where
  "chunk_size = 1024 * 1024"

text \<open>
  A snapshot is the state that another coroutine or process can observe at a suspension
  point of the copy loop (\<open>await asyncio.sleep(0.01)\<close>).
\<close>

type_synonym snapshot = "downloader \<times> filesystem"

text \<open>
  The \<open>while True\<close> loop of the local copy: \<open>src\<close> is the read handle of the source,
  \<open>downloaded\<close> the local byte counter. The result is the exception that left the
  loop, if any, the states at the end and the snapshots taken on the way.
\<close>

function copy_chunks ::
  "platform \<Rightarrow> handle \<Rightarrow> path \<Rightarrow> nat \<Rightarrow> nat \<Rightarrow> downloader \<Rightarrow> filesystem
   \<Rightarrow> exn option \<times> downloader \<times> filesystem \<times> snapshot list" where
  "copy_chunks P src destination total_size downloaded D fs =
     (case read_handle P src (Some chunk_size) of
        Inl e \<Rightarrow> (Some e, D, fs, [])
      | Inr (chunk, src1) \<Rightarrow>
          if chunk = [] then (None, D, fs, [])
          else
            let fs1 = write_bytes P fs destination chunk;
                downloaded1 = downloaded + length chunk;
                D1 = D\<lparr>downloaded_bytes := downloaded_bytes D + int (length chunk)\<rparr>
            in if total_size = 0 then (Some ZeroDivisionError, D1, fs1, [])
               else if total_size_bytes D1 = 0 then (Some ZeroDivisionError, D1, fs1, [])
               else
                 let D2 = update_progress
                            (D1\<lparr>status_text :=
                                  CopyProgress (path_name destination) downloaded1 total_size\<rparr>);
                     (r, D3, fs3, tr) =
                        copy_chunks P src1 destination total_size downloaded1 D2 fs1
                 in (r, D3, fs3, (D2, fs1) # tr))"
  by pat_completeness auto
termination
  by (relation "measure (\<lambda>(P, src, destination, total_size, downloaded, D, fs).
                    length (h_data src) - h_pos src)")
     (auto simp: read_handle_def Let_def split: if_splits)

declare copy_chunks.simps [simp del]

text \<open>
  The \<open>with\<close> block: the source is opened, then the destination, which truncates it;
  when both are one file the read handle sees the truncated file.
\<close>

definition copy_file ::
  "platform \<Rightarrow> path \<Rightarrow> path \<Rightarrow> nat \<Rightarrow> downloader \<Rightarrow> filesystem
   \<Rightarrow> exn option \<times> downloader \<times> filesystem \<times> snapshot list" where
  "copy_file P source destination total_size D fs =
     (case open_rb fs source of
        Inl e \<Rightarrow> (Some e, D, fs, [])
      | Inr src \<Rightarrow>
          let fs1 = open_wb P fs destination;
              src1 = (if destination = source then src\<lparr>h_data := []\<rparr> else src)
          in copy_chunks P src1 destination total_size 0 D fs1)"

text \<open>
  The hash expected for a destination: the first entry of the manifest whose path is
  the destination relative to the download folder, \<open>None\<close> when there is none.
\<close>

fun find_hash :: "path \<Rightarrow> path \<Rightarrow> file_info list \<Rightarrow> exn + string option" where
  "find_hash dest_path folder [] = Inr None"
| "find_hash dest_path folder (f # rest) =
     (case relative_to dest_path folder of
        Inl e \<Rightarrow> Inl e
      | Inr rel \<Rightarrow> if path f = rel then Inr (Some (hash f)) else find_hash dest_path folder rest)"

definition expected_hash_of :: "downloader \<Rightarrow> path \<Rightarrow> exn + string option" where
  "expected_hash_of D destination =
     (case manifest D of
        None \<Rightarrow> Inl TypeError
      | Some manifest_data \<Rightarrow>
          (case files manifest_data of
             None \<Rightarrow> Inl KeyError
           | Some (FilesList xs) \<Rightarrow> find_hash destination (download_folder D) xs
           | Some _ \<Rightarrow> Inl TypeError))"

text \<open>The \<open>try\<close> block that checks the hash after the transfer.\<close>

definition verify_download :: "platform \<Rightarrow> downloader \<Rightarrow> filesystem \<Rightarrow> path \<Rightarrow> exn + unit" where
  "verify_download P D fs destination =
     (let downloaded_hash = calculate_fast_hash P fs destination in
      case expected_hash_of D destination of
        Inl e \<Rightarrow> Inl e
      | Inr expected_hash \<Rightarrow>
          if Some downloaded_hash \<noteq> expected_hash then Inl ValueError else Inr ())"

text \<open>How the body of the \<open>while\<close> loop ended for one queue entry.\<close>

datatype outcome = Critical | NoSource | CopyFailed | VerifyFailed | Kept

text \<open>One pass of the body of the \<open>while\<close> loop, after the entry was popped.\<close>

definition process_entry ::
  "platform \<Rightarrow> path \<times> path \<times> int \<Rightarrow> downloader \<Rightarrow> filesystem
   \<Rightarrow> outcome \<times> downloader \<times> filesystem \<times> snapshot list" where
  "process_entry P entry D fs =
     (case entry of (source, destination, file_size) \<Rightarrow>
      if mkdir_fails P destination
      then (Critical, D\<lparr>status_text := CriticalError OSError\<rparr>, fs, [])
      else
        let files_left = length (download_queue D);
            current_file_num = int (total_files D) - int files_left;
            D1 = D\<lparr>total_status_text :=
                     Downloading current_file_num (total_files D)
                       (downloaded_bytes D) (total_size_bytes D)\<rparr>
        in if fs source = None
           then (NoSource, update_progress (D1\<lparr>status_text := SourceNotFound source\<rparr>), fs, [])
           else
             (case getsize fs source of
                Inl e \<Rightarrow> (Critical, D1\<lparr>status_text := CriticalError e\<rparr>, fs, [])
              | Inr total_size \<Rightarrow>
                  (case copy_file P source destination total_size D1 fs of
                     (Some copy_error, D2, fs2, tr) \<Rightarrow>
                       (CopyFailed, D2\<lparr>status_text := CopyError copy_error\<rparr>,
                        unlink_if_exists fs2 destination, tr)
                   | (None, D2, fs2, tr) \<Rightarrow>
                       (case verify_download P D2 fs2 destination of
                          Inl hash_error \<Rightarrow>
                            (VerifyFailed, D2\<lparr>status_text := VerifyError hash_error\<rparr>,
                             unlink_if_exists fs2 destination, tr)
                        | Inr u \<Rightarrow> (Kept, update_progress D2, fs2, tr)))))"

text \<open>
  The \<open>while self.download_queue\<close> loop: each pass pops the head of the queue. The
  result lists the outcome of every pass.
\<close>

fun process_entries ::
  "platform \<Rightarrow> (path \<times> path \<times> int) list \<Rightarrow> downloader \<Rightarrow> filesystem
   \<Rightarrow> outcome list \<times> downloader \<times> filesystem \<times> snapshot list" where
  "process_entries P [] D fs = ([], D, fs, [])"
| "process_entries P (entry # rest) D fs =
     (let D1 = D\<lparr>download_queue := rest, current_download := Some entry\<rparr>;
          (oc, D2, fs2, tr) = process_entry P entry D1 fs;
          (ocs, D3, fs3, tr') = process_entries P rest D2 fs2
      in (oc # ocs, D3, fs3, tr @ tr'))"

definition process_queue ::
  "platform \<Rightarrow> downloader \<Rightarrow> filesystem \<Rightarrow> outcome list \<times> downloader \<times> filesystem \<times> snapshot list" where
  "process_queue P D fs =
     (let total_download_size = sum_list (map (\<lambda>(source, destination, size). size) (download_queue D));
          D1 = D\<lparr>total_size_bytes := total_download_size, downloaded_bytes := 0\<rparr>;
          (ocs, D2, fs2, tr) = process_entries P (download_queue D1) D1 fs;
          D3 = D2\<lparr>current_download := None,
                   status_text := AllDownloaded,
                   total_status_text :=
                     Finished (files_requiring_download D2) (size_requiring_download D2)\<rparr>
      in (ocs, update_progress D3, fs2, tr))"

text \<open>
  The handler \<open>start_file_check\<close> of the window: a fresh downloader checks the files,
  queues the ones to download and processes the queue.
\<close>

definition start_file_check ::
  "platform \<Rightarrow> filesystem \<Rightarrow> manifest_data option \<Rightarrow> path \<Rightarrow> path
   \<Rightarrow> exn + (outcome list \<times> downloader \<times> filesystem \<times> snapshot list)" where
  "start_file_check P fs doc src dl =
     (case check_files P fs doc (Downloader src dl) of
        Inl e \<Rightarrow> Inl e
      | Inr (to_download, D) \<Rightarrow>
          if to_download = []
          then Inr ([], update_progress
                 (D\<lparr>total_status_text := AllCurrent (total_files D),
                    status_text := ReadyToLaunch\<rparr>), fs, [])
          else
            let D1 = update_progress
                       (D\<lparr>total_status_text :=
                            FoundToDownload (files_requiring_download D) (total_files D)
                              (size_requiring_download D),
                          status_text := Preparing\<rparr>);
                D2 = foldl (\<lambda>d file_info. add_download file_info d) D1 to_download
            in Inr (process_queue P D2 fs))"

section \<open>Specification-level notions and concrete data\<close>

text \<open>The characters of lowercase hexadecimal text.\<close>

definition hex_digits :: "char set" where
  "hex_digits = set ''0123456789abcdef''"

text \<open>
  A concrete platform for running the model: the digest is the fed bytes themselves,
  a timestamp prints as whole seconds, files are stamped with time 200 when written,
  and nothing fails.
\<close>

definition demo :: platform where
  "demo = \<lparr>blake2b = (\<lambda>b. b), str_float = (\<lambda>t. str_nat t @ ''.0''),
           mtime_on_write = (\<lambda>p. 200), read_fault = (\<lambda>p. None),
           mkdir_fails = (\<lambda>p. False)\<rparr>"

definition fs_small :: filesystem where
  "fs_small = [''dl/a.txt'' \<mapsto> \<lparr>content = ''abc'', st_mtime = 100\<rparr>]"

definition mid_file :: inode where
  "mid_file = \<lparr>content = replicate 65537 CHR ''a'', st_mtime = 7\<rparr>"

definition big_file :: inode where
  "big_file = \<lparr>content = replicate 131073 CHR ''a'', st_mtime = 7\<rparr>"






text \<open>The list of entries of the result of \<open>check_files\<close>, and its final status text.\<close>

definition checked_list :: "exn + (file_info list \<times> downloader) \<Rightarrow> exn + file_info list" where
  "checked_list r = (case r of Inl e \<Rightarrow> Inl e | Inr (xs, D) \<Rightarrow> Inr xs)"

definition checked_status :: "exn + (file_info list \<times> downloader) \<Rightarrow> exn + status" where
  "checked_status r = (case r of Inl e \<Rightarrow> Inl e | Inr (xs, D) \<Rightarrow> Inr (status_text D))"




definition rec_bad :: file_info where
  "rec_bad = \<lparr>path = ''a.txt'', size_opt = Some (- 5), hash = ''abc''\<rparr>"

definition rec_a :: file_info where
  "rec_a = \<lparr>path = ''a.txt'', size_opt = Some 3, hash = ''616263333130302e30''\<rparr>"

definition rec_b :: file_info where
  "rec_b = \<lparr>path = ''b.txt'', size_opt = None, hash = ''00''\<rparr>"

definition manifest_of :: "file_info list \<Rightarrow> manifest_data option" where
  "manifest_of xs = Some \<lparr>files = Some (FilesList xs)\<rparr>"

text \<open>
  A manifest document is rejected when \<open>check_files\<close> reports the manifest error and
  plans nothing.
\<close>

definition manifest_rejected ::
  "platform \<Rightarrow> filesystem \<Rightarrow> manifest_data option \<Rightarrow> downloader \<Rightarrow> bool" where
  "manifest_rejected P fs doc D =
     (checked_list (check_files P fs doc D) = Inr []
      \<and> checked_status (check_files P fs doc D) = Inr ManifestNotLoaded)"

text \<open>The bytes that a read handle has not returned yet.\<close>

definition remaining :: "handle \<Rightarrow> bytes" where
  "remaining h = drop (h_pos h) (h_data h)"

text \<open>The fields of the downloader that the transfer of a queue entry leaves alone.\<close>

definition same_static :: "downloader \<Rightarrow> downloader \<Rightarrow> bool" where
  "same_static D' D =
     (download_queue D' = download_queue D \<and> current_download D' = current_download D
      \<and> manifest D' = manifest D \<and> download_folder D' = download_folder D
      \<and> source_folder D' = source_folder D \<and> total_files D' = total_files D
      \<and> total_size_bytes D' = total_size_bytes D
      \<and> files_requiring_download D' = files_requiring_download D
      \<and> size_requiring_download D' = size_requiring_download D)"

text \<open>
  What holds of a state observed while \<open>rest\<close> is being copied to \<open>dst\<close>, whose
  content was \<open>c0\<close> when the copy started from the states \<open>D\<close> and \<open>fs\<close>.
\<close>

definition copy_inv :: "downloader \<Rightarrow> filesystem \<Rightarrow> path \<Rightarrow> bytes \<Rightarrow> bytes \<Rightarrow> snapshot \<Rightarrow> bool" where
  "copy_inv D fs dst c0 rest X =
     (same_static (fst X) D
      \<and> downloaded_bytes D \<le> downloaded_bytes (fst X)
      \<and> downloaded_bytes (fst X) \<le> downloaded_bytes D + int (length rest)
      \<and> (\<forall>p. p \<noteq> dst \<longrightarrow> snd X p = fs p)
      \<and> (\<exists>g' n. snd X dst = Some g' \<and> content g' = c0 @ take n rest))"

text \<open>The downloader after the body of the loop has set the text of the total status.\<close>

definition announce :: "downloader \<Rightarrow> downloader" where
  "announce D =
     D\<lparr>total_status_text :=
         Downloading (int (total_files D) - int (length (download_queue D))) (total_files D)
           (downloaded_bytes D) (total_size_bytes D)\<rparr>"

text \<open>The bytes that the copy of \<open>source\<close> to \<open>destination\<close> reads from the file \<open>f\<close>.\<close>

definition copied_data :: "path \<Rightarrow> path \<Rightarrow> inode \<Rightarrow> bytes" where
  "copied_data source destination f = (if destination = source then [] else content f)"




text \<open>Projections of the result of a session, of a queue and of one entry.\<close>

definition session_outcomes ::
  "exn + (outcome list \<times> downloader \<times> filesystem \<times> snapshot list) \<Rightarrow> outcome list" where
  "session_outcomes r = (case r of Inl e \<Rightarrow> [] | Inr (ocs, D, fs, tr) \<Rightarrow> ocs)"

definition session_fs ::
  "exn + (outcome list \<times> downloader \<times> filesystem \<times> snapshot list) \<Rightarrow> filesystem" where
  "session_fs r = (case r of Inl e \<Rightarrow> Map.empty | Inr (ocs, D, fs, tr) \<Rightarrow> fs)"

definition session_page ::
  "exn + (outcome list \<times> downloader \<times> filesystem \<times> snapshot list) \<Rightarrow> (total_status \<times> status) list" where
  "session_page r = (case r of Inl e \<Rightarrow> [] | Inr (ocs, D, fs, tr) \<Rightarrow> page D)"

definition sizes_at :: "path \<Rightarrow> snapshot list \<Rightarrow> nat option list" where
  "sizes_at p tr = map (\<lambda>X. map_option (\<lambda>f. length (content f)) (snd X p)) tr"

definition counters :: "snapshot list \<Rightarrow> (int \<times> int) list" where
  "counters tr = map (\<lambda>X. (downloaded_bytes (fst X), total_size_bytes (fst X))) tr"

text \<open>Data for small sessions.\<close>

definition fs_src :: filesystem where
  "fs_src = [''src/a.txt'' \<mapsto> \<lparr>content = ''abc'', st_mtime = 100\<rparr>]"


definition rec_small :: file_info where
  "rec_small = \<lparr>path = ''a.txt'', size_opt = Some 1, hash = ''616263333130302e30''\<rparr>"

definition queued :: "file_info \<Rightarrow> downloader" where
  "queued r = add_download r ((Downloader ''src'' ''dl'')\<lparr>manifest := manifest_of [r]\<rparr>)"

definition entry_sizes :: "(path \<times> path \<times> int) list \<Rightarrow> int" where
  "entry_sizes q = sum_list (map (\<lambda>(source, destination, size). size) q)"




definition sized :: "file_info \<Rightarrow> int \<Rightarrow> downloader" where
  "sized r n = (queued r)\<lparr>total_size_bytes := n\<rparr>"

definition entry_trace ::
  "outcome \<times> downloader \<times> filesystem \<times> snapshot list \<Rightarrow> snapshot list" where
  "entry_trace r = (case r of (oc, D, fs, tr) \<Rightarrow> tr)"

definition entry_fs ::
  "outcome \<times> downloader \<times> filesystem \<times> snapshot list \<Rightarrow> filesystem" where
  "entry_fs r = (case r of (oc, D, fs, tr) \<Rightarrow> fs)"

definition entry_outcome ::
  "outcome \<times> downloader \<times> filesystem \<times> snapshot list \<Rightarrow> outcome" where
  "entry_outcome r = (case r of (oc, D, fs, tr) \<Rightarrow> oc)"

definition queue_trace ::
  "outcome list \<times> downloader \<times> filesystem \<times> snapshot list \<Rightarrow> snapshot list" where
  "queue_trace r = (case r of (ocs, D, fs, tr) \<Rightarrow> tr)"

definition queue_outcomes ::
  "outcome list \<times> downloader \<times> filesystem \<times> snapshot list \<Rightarrow> outcome list" where
  "queue_outcomes r = (case r of (ocs, D, fs, tr) \<Rightarrow> ocs)"

definition queue_final ::
  "outcome list \<times> downloader \<times> filesystem \<times> snapshot list \<Rightarrow> downloader" where
  "queue_final r = (case r of (ocs, D, fs, tr) \<Rightarrow> D)"


section \<open>Properties of the fingerprint\<close>

lemma fast_hash_body_readable:
  assumes "fs p = Some f" and "read_fault P p = None"
  shows "fast_hash_body P fs p =
     Inr (take 65536 (content f)
          @ (if length (content f) > 131072
             then drop (length (content f) - 65536) (content f) else [])
          @ str_nat (length (content f)) @ str_float P (st_mtime f),
          \<lparr>h_path = p, h_data = content f,
           h_pos = (if length (content f) > 131072 then length (content f)
                    else min 65536 (length (content f))),
           h_calls = (if length (content f) > 131072 then 2 else 1),
           h_spans = (if length (content f) > 131072
                      then [(0, 65536), (length (content f) - 65536, 65536)]
                      else [(0, min 65536 (length (content f)))])\<rparr>)"
  using assms
  by (simp add: fast_hash_body_def open_rb_def read_handle_def getsize_def os_stat_def
        seek_end_def update_def encode_def Let_def min_def)

lemma report_body_eq: "report_fast_hash_body P fs p = fast_hash_body P fs p"
  by (simp add: report_fast_hash_body_def fast_hash_body_def)

lemma digit_char_hex: "d < 16 \<Longrightarrow> digit_char d \<in> hex_digits"
  unfolding digit_char_def hex_digits_def by (rule nth_mem) simp

lemma hex_byte_chars: "set (hex_byte c) \<subseteq> hex_digits"
proof -
  have "(of_char c :: nat) < 16 * 16" by simp
  then have 1: "(of_char c :: nat) div 16 < 16" by (rule less_mult_imp_div_less)
  have 2: "(of_char c :: nat) mod 16 < 16" by simp
  show ?thesis
    unfolding hex_byte_def using digit_char_hex [OF 1] digit_char_hex [OF 2] by simp
qed

lemma hex_lower_chars: "set (hex_lower bs) \<subseteq> hex_digits"
proof (induction bs)
  case Nil
  show ?case by (simp add: hex_lower_def)
next
  case (Cons b bs)
  then show ?case using hex_byte_chars [of b] by (simp add: hex_lower_def)
qed

lemma hex_lower_length: "length (hex_lower bs) = 2 * length bs"
  unfolding hex_lower_def by (induction bs) (simp_all add: hex_byte_def)

text \<open>
  C3. For a readable file (it exists and no read call on it fails) the fingerprint is the
  lowercase hex of the hash fed with the first 65536 bytes, the last 65536 bytes exactly
  when the size exceeds 131072, the decimal size and the printed modification time; the
  manifest generator and the sync engine compute the same value.
\<close>

theorem fingerprint_matches_spec:
  assumes "fs p = Some f" and "read_fault P p = None"
  shows "calculate_fast_hash P fs p = fingerprint_spec P f
       \<and> report_calculate_fast_hash P fs p = calculate_fast_hash P fs p
       \<and> set (calculate_fast_hash P fs p) \<subseteq> hex_digits"
  using assms hex_lower_chars
  by (simp add: calculate_fast_hash_def report_calculate_fast_hash_def report_body_eq
        fast_hash_body_readable fingerprint_spec_def hexdigest_def)

theorem fingerprint_matches_spec_witness:
  "calculate_fast_hash demo fs_small ''dl/a.txt'' = ''616263333130302e30''
   \<and> report_calculate_fast_hash demo fs_small ''dl/a.txt''
       = calculate_fast_hash demo fs_small ''dl/a.txt''"
proof -
  have 1: "fs_small ''dl/a.txt'' = Some \<lparr>content = ''abc'', st_mtime = 100\<rparr>"
    by (simp add: fs_small_def)
  have 2: "read_fault demo ''dl/a.txt'' = None" by (simp add: demo_def)
  have 3: "fingerprint_spec demo \<lparr>content = ''abc'', st_mtime = 100\<rparr> = ''616263333130302e30''"
    by (simp add: fingerprint_spec_def demo_def hex_lower_def hex_byte_def digit_char_def
          str_nat.simps)
  show ?thesis
    using fingerprint_matches_spec
            [where fs = fs_small and p = "''dl/a.txt''" and P = demo, OF 1 2] 3
    by simp
qed

text \<open>
  C4, as the specification states it, fails: a file of 65537 bytes is not larger than
  131072 bytes, yet only its first 65536 bytes are read.
\<close>

theorem reads_entire_small_file_counterexample:
  "length (content mid_file) \<le> 131072
   \<and> bytes_read demo [''f'' \<mapsto> mid_file] ''f'' = [(0, 65536)]
   \<and> bytes_read demo [''f'' \<mapsto> mid_file] ''f'' \<noteq> [(0, length (content mid_file))]"
proof -
  have 1: "[''f'' \<mapsto> mid_file] ''f'' = Some mid_file" by simp
  have 2: "read_fault demo ''f'' = None" by (simp add: demo_def)
  have 3: "length (content mid_file) = 65537" by (simp add: mid_file_def)
  have "bytes_read demo [''f'' \<mapsto> mid_file] ''f'' = [(0, 65536)]"
    by (simp add: bytes_read_def
          fast_hash_body_readable [where fs = "[''f'' \<mapsto> mid_file]" and p = "''f''" and P = demo, OF 1 2] 3)
  then show ?thesis using 3 by simp
qed

text \<open>
  C4, amended. For a readable file of at most 65536 bytes, fingerprinting reads the whole
  content in one read; for a file of more than 65536 and at most 131072 bytes it reads
  only the first 65536 bytes; for a larger file it reads only the first 65536 and the
  last 65536 bytes.
\<close>

theorem fingerprint_reads:
  assumes "fs p = Some f" and "read_fault P p = None"
  shows "(length (content f) \<le> 65536 \<longrightarrow> bytes_read P fs p = [(0, length (content f))])
       \<and> (65536 < length (content f) \<and> length (content f) \<le> 131072 \<longrightarrow>
            bytes_read P fs p = [(0, 65536)])
       \<and> (131072 < length (content f) \<longrightarrow>
            bytes_read P fs p = [(0, 65536), (length (content f) - 65536, 65536)])"
  using assms by (simp add: bytes_read_def fast_hash_body_readable)

theorem fingerprint_reads_witness:
  "bytes_read demo fs_small ''dl/a.txt'' = [(0, 3)]
   \<and> bytes_read demo [''m'' \<mapsto> mid_file] ''m'' = [(0, 65536)]
   \<and> bytes_read demo [''b'' \<mapsto> big_file] ''b'' = [(0, 65536), (65537, 65536)]"
proof -
  have s1: "fs_small ''dl/a.txt'' = Some \<lparr>content = ''abc'', st_mtime = 100\<rparr>"
    by (simp add: fs_small_def)
  have s2: "read_fault demo ''dl/a.txt'' = None" by (simp add: demo_def)
  have m1: "[''m'' \<mapsto> mid_file] ''m'' = Some mid_file" by simp
  have m2: "read_fault demo ''m'' = None" by (simp add: demo_def)
  have m3: "length (content mid_file) = 65537" by (simp add: mid_file_def)
  have b1: "[''b'' \<mapsto> big_file] ''b'' = Some big_file" by simp
  have b2: "read_fault demo ''b'' = None" by (simp add: demo_def)
  have b3: "length (content big_file) = 131073" by (simp add: big_file_def)
  have "bytes_read demo fs_small ''dl/a.txt'' = [(0, 3)]"
    using fingerprint_reads [where fs = fs_small and p = "''dl/a.txt''" and P = demo, OF s1 s2]
    by simp
  moreover have "bytes_read demo [''m'' \<mapsto> mid_file] ''m'' = [(0, 65536)]"
    using fingerprint_reads [where fs = "[''m'' \<mapsto> mid_file]" and p = "''m''" and P = demo, OF m1 m2]
    by (simp add: m3)
  moreover have "bytes_read demo [''b'' \<mapsto> big_file] ''b'' = [(0, 65536), (65537, 65536)]"
    using fingerprint_reads [where fs = "[''b'' \<mapsto> big_file]" and p = "''b''" and P = demo, OF b1 b2]
    by (simp add: b3)
  ultimately show ?thesis by simp
qed

section \<open>Properties of the planner\<close>













lemma check_loop_status:
  "xs \<noteq> [] \<Longrightarrow> status_text (check_loop P fs xs D) \<noteq> ManifestNotLoaded"
proof (induction xs arbitrary: D)
  case Nil
  then show ?case by simp
next
  case (Cons r rest)
  show ?case
  proof (cases rest)
    case Nil
    then show ?thesis
      by (simp add: check_one_def Let_def mark_for_download_def update_progress_def)
  next
    case (Cons a list)
    then show ?thesis using Cons.IH [of "check_one P fs r D"] by simp
  qed
qed

text \<open>
  C7, amended. Loading yields no manifest when the manifest file cannot be opened or
  parsed, or when \<open>files\<close> is \<open>null\<close> or a number; \<open>check_files\<close> reports the manifest
  error and plans nothing in these cases and when \<open>files\<close> is absent or empty. The
  records are not validated: a document with a list of records is returned as it is,
  and with a non-empty list it is never rejected, whatever the paths, sizes and
  fingerprints of the records are.
\<close>

theorem manifest_rejection:
  "manifest_rejected P fs None D
   \<and> manifest_rejected P fs (Some \<lparr>files = None\<rparr>) D
   \<and> manifest_rejected P fs (Some \<lparr>files = Some FilesNull\<rparr>) D
   \<and> manifest_rejected P fs (Some \<lparr>files = Some (FilesNumber n)\<rparr>) D
   \<and> manifest_rejected P fs (manifest_of []) D
   \<and> fst (load_manifest None D) = None
   \<and> fst (load_manifest (Some \<lparr>files = Some FilesNull\<rparr>) D) = None
   \<and> fst (load_manifest (Some \<lparr>files = Some (FilesNumber n)\<rparr>) D) = None
   \<and> fst (load_manifest (manifest_of xs) D) = manifest_of xs
   \<and> \<not> manifest_rejected P fs (manifest_of (x # xs)) D"
proof -
  have a: "\<not> manifest_rejected P fs (manifest_of (x # xs)) D"
    using check_loop_status [of "x # xs" P fs]
    by (simp add: manifest_rejected_def check_files_def load_manifest_def manifest_of_def
          py_len_def truthy_def Let_def checked_status_def checked_list_def)
  have b: "manifest_rejected P fs None D" "manifest_rejected P fs (Some \<lparr>files = None\<rparr>) D"
    "manifest_rejected P fs (Some \<lparr>files = Some FilesNull\<rparr>) D"
    "manifest_rejected P fs (Some \<lparr>files = Some (FilesNumber n)\<rparr>) D"
    "manifest_rejected P fs (manifest_of []) D"
    by (simp_all add: manifest_rejected_def check_files_def load_manifest_def manifest_of_def
          py_len_def truthy_def Let_def checked_status_def checked_list_def update_progress_def)
  have c: "fst (load_manifest None D) = None"
    "fst (load_manifest (Some \<lparr>files = Some FilesNull\<rparr>) D) = None"
    "fst (load_manifest (Some \<lparr>files = Some (FilesNumber n)\<rparr>) D) = None"
    "fst (load_manifest (manifest_of xs) D) = manifest_of xs"
    by (simp_all add: load_manifest_def manifest_of_def py_len_def)
  from a b c show ?thesis by simp
qed

text \<open>
  C7, as the specification states it, fails: a record with a negative size and a
  fingerprint of three characters is loaded and planned for download.
\<close>

theorem unvalidated_manifest_counterexample:
  "get_size rec_bad < 0 \<and> length (hash rec_bad) \<noteq> 64
   \<and> fst (load_manifest (manifest_of [rec_bad]) (Downloader ''src'' ''dl'')) = manifest_of [rec_bad]
   \<and> checked_list (check_files demo Map.empty (manifest_of [rec_bad]) (Downloader ''src'' ''dl''))
       = Inr [rec_bad]"
  by (simp add: check_files_def load_manifest_def manifest_of_def py_len_def truthy_def Let_def
        check_one_def Downloader_def update_progress_def checked_list_def rec_bad_def
        mark_for_download_def get_size_def)

section \<open>Properties of the transfer\<close>


lemma same_static_refl: "same_static D D"
  by (simp add: same_static_def)

lemma same_static_trans: "same_static D2 D1 \<Longrightarrow> same_static D1 D \<Longrightarrow> same_static D2 D"
  by (simp add: same_static_def)

lemma read_handle_chunk:
  assumes "read_handle P src (Some n) = Inr (chunk, src1)"
  shows "chunk = take n (remaining src)" and "remaining src1 = drop n (remaining src)"
proof -
  from assms have c: "chunk = take n (drop (h_pos src) (h_data src))"
    and s: "src1 = src\<lparr>h_pos := h_pos src + length chunk, h_calls := h_calls src + 1,
                       h_spans := h_spans src @ [(h_pos src, length chunk)]\<rparr>"
    by (auto simp: read_handle_def Let_def split: if_splits)
  show "chunk = take n (remaining src)" using c by (simp add: remaining_def)
  have "remaining src1 = drop (length chunk) (remaining src)"
    using s by (simp add: remaining_def add.commute)
  also have "\<dots> = drop n (remaining src)"
    using c by (simp add: remaining_def min_def)
  finally show "remaining src1 = drop n (remaining src)" .
qed

lemma copy_chunks_fault:
  "read_handle P src (Some chunk_size) = Inl e \<Longrightarrow>
   copy_chunks P src dst tsz dl D fs = (Some e, D, fs, [])"
  by (simp add: copy_chunks.simps [of P src])

lemma copy_chunks_eof:
  "read_handle P src (Some chunk_size) = Inr ([], src1) \<Longrightarrow>
   copy_chunks P src dst tsz dl D fs = (None, D, fs, [])"
  by (simp add: copy_chunks.simps [of P src])

lemma copy_chunks_zero:
  "read_handle P src (Some chunk_size) = Inr (chunk, src1) \<Longrightarrow> chunk \<noteq> [] \<Longrightarrow>
   tsz = 0 \<or> total_size_bytes D = 0 \<Longrightarrow>
   copy_chunks P src dst tsz dl D fs =
     (Some ZeroDivisionError, D\<lparr>downloaded_bytes := downloaded_bytes D + int (length chunk)\<rparr>,
      write_bytes P fs dst chunk, [])"
  by (auto simp: copy_chunks.simps [of P src] Let_def)

lemma copy_chunks_step:
  "read_handle P src (Some chunk_size) = Inr (chunk, src1) \<Longrightarrow> chunk \<noteq> [] \<Longrightarrow>
   tsz \<noteq> 0 \<Longrightarrow> total_size_bytes D \<noteq> 0 \<Longrightarrow>
   copy_chunks P src1 dst tsz (dl + length chunk)
     (update_progress
        (D\<lparr>downloaded_bytes := downloaded_bytes D + int (length chunk),
           status_text := CopyProgress (path_name dst) (dl + length chunk) tsz\<rparr>))
     (write_bytes P fs dst chunk) = (r1, D3, fs3, tr1) \<Longrightarrow>
   copy_chunks P src dst tsz dl D fs =
     (r1, D3, fs3,
      (update_progress
        (D\<lparr>downloaded_bytes := downloaded_bytes D + int (length chunk),
           status_text := CopyProgress (path_name dst) (dl + length chunk) tsz\<rparr>),
       write_bytes P fs dst chunk) # tr1)"
  by (simp add: copy_chunks.simps [of P src] Let_def)

lemma copy_inv_start:
  "fs dst = Some g \<Longrightarrow> copy_inv D fs dst (content g) rest (D, fs)"
  unfolding copy_inv_def
  by (intro conjI) (simp_all add: same_static_refl exI [of _ 0])

lemma copy_inv_step:
  assumes X: "copy_inv D2 fs1 dst (c0 @ take k rest) (drop k rest) X"
    and st: "same_static D2 D"
    and db: "downloaded_bytes D2 = downloaded_bytes D + int (length (take k rest))"
    and fs: "\<forall>p. p \<noteq> dst \<longrightarrow> fs1 p = fs p"
  shows "copy_inv D fs dst c0 rest X"
proof -
  from X obtain g' n where g': "snd X dst = Some g'"
      "content g' = (c0 @ take k rest) @ take n (drop k rest)"
    unfolding copy_inv_def by blast
  have "take k rest @ take n (drop k rest) = take (k + n) rest"
    by (simp add: take_add)
  then have c: "content g' = c0 @ take (k + n) rest" using g'(2) by simp
  have len: "length (take k rest) + length (drop k rest) = length rest" by simp
  have 1: "same_static (fst X) D" using X st unfolding copy_inv_def by (blast intro: same_static_trans)
  have 2: "downloaded_bytes D \<le> downloaded_bytes (fst X)"
    using X db unfolding copy_inv_def by linarith
  have "downloaded_bytes (fst X) \<le> downloaded_bytes D2 + int (length (drop k rest))"
    using X unfolding copy_inv_def by blast
  then have 3: "downloaded_bytes (fst X) \<le> downloaded_bytes D + int (length rest)"
    using db len by linarith
  have 4: "\<forall>p. p \<noteq> dst \<longrightarrow> snd X p = fs p"
    using X fs unfolding copy_inv_def by simp
  have 5: "\<exists>g' n. snd X dst = Some g' \<and> content g' = c0 @ take n rest"
    using g'(1) c by blast
  show ?thesis unfolding copy_inv_def using 1 2 3 4 5 by blast
qed

lemma copy_chunks_inv:
  "copy_chunks P src dst tsz dl D fs = (r, D', fs', tr) \<Longrightarrow> fs dst = Some g \<Longrightarrow>
   (\<forall>X \<in> insert (D', fs') (set tr). copy_inv D fs dst (content g) (remaining src) X)
   \<and> (r = None \<longrightarrow> (\<exists>g'. fs' dst = Some g' \<and> content g' = content g @ remaining src))"
proof (induction P src dst tsz dl D fs arbitrary: r D' fs' tr g rule: copy_chunks.induct)
  case (1 P src dst tsz dl D fs)
  note prem = "1.prems"(1) and g = "1.prems"(2)
  note base = copy_inv_start [where fs = fs and dst = dst and g = g and D = D and rest = "remaining src", OF g]
  show ?case
  proof (cases "read_handle P src (Some chunk_size)")
    case (Inl e)
    with prem have "r = Some e" "D' = D" "fs' = fs" "tr = []"
      using copy_chunks_fault [OF Inl, of dst tsz dl D fs] by simp_all
    then show ?thesis using base by simp
  next
    case (Inr x)
    obtain chunk src1 where x: "x = (chunk, src1)" by (cases x)
    note rd = Inr [unfolded x]
    note ch = read_handle_chunk [OF rd]
    show ?thesis
    proof (cases "chunk = []")
      case True
      with prem rd have res: "r = None" "D' = D" "fs' = fs" "tr = []"
        using copy_chunks_eof [of P src src1 dst tsz dl D fs] by simp_all
      have "remaining src = []" using True ch(1) by (simp add: chunk_size_def)
      then show ?thesis using res base g by simp
    next
      case False
      define fs1 where "fs1 = write_bytes P fs dst chunk"
      define D1 where "D1 = D\<lparr>downloaded_bytes := downloaded_bytes D + int (length chunk)\<rparr>"
      define g1 where "g1 = \<lparr>content = content g @ chunk, st_mtime = mtime_on_write P dst\<rparr>"
      have fs1: "fs1 dst = Some g1" "\<forall>p. p \<noteq> dst \<longrightarrow> fs1 p = fs p"
        using g by (simp_all add: fs1_def write_bytes_def g1_def)
      have cg1: "content g1 = content g @ take chunk_size (remaining src)"
        using ch(1) by (simp add: g1_def)
      have st1: "same_static D1 D" by (simp add: D1_def same_static_def)
      have db1: "downloaded_bytes D1 = downloaded_bytes D + int (length (take chunk_size (remaining src)))"
        using ch(1) by (simp add: D1_def)
      have inv1: "copy_inv D fs dst (content g) (remaining src) (D1, fs1)"
        by (rule copy_inv_step [OF _ st1 db1 fs1(2)])
           (use copy_inv_start [where fs = fs1 and dst = dst and g = g1 and D = D1
                    and rest = "drop chunk_size (remaining src)", OF fs1(1)] cg1 in simp)
      show ?thesis
      proof (cases "tsz = 0 \<or> total_size_bytes D1 = 0")
        case True
        then have "tsz = 0 \<or> total_size_bytes D = 0" by (simp add: D1_def)
        from copy_chunks_zero [OF rd False this, of dst dl fs] prem
        have res: "r = Some ZeroDivisionError" "D' = D1" "fs' = fs1" "tr = []"
          by (simp_all add: D1_def fs1_def)
        show ?thesis using res inv1 by simp
      next
        case nz: False
        define D2 where "D2 = update_progress
              (D1\<lparr>status_text := CopyProgress (path_name dst) (dl + length chunk) tsz\<rparr>)"
        obtain r1 D3 fs3 tr1 where rec:
          "copy_chunks P src1 dst tsz (dl + length chunk) D2 fs1 = (r1, D3, fs3, tr1)"
          by (metis prod_cases4)
        have nz2: "tsz \<noteq> 0" "total_size_bytes D \<noteq> 0" using nz by (simp_all add: D1_def)
        from copy_chunks_step [OF rd False nz2 rec [unfolded D2_def D1_def fs1_def]] prem
        have res: "r = r1" "D' = D3" "fs' = fs3" "tr = (D2, fs1) # tr1"
          by (simp_all add: D2_def D1_def fs1_def)
        have st2: "same_static D2 D"
          and db2: "downloaded_bytes D2 = downloaded_bytes D + int (length (take chunk_size (remaining src)))"
          using ch(1) by (simp_all add: D2_def D1_def same_static_def update_progress_def)
        have nz': "total_size_bytes (D\<lparr>downloaded_bytes := downloaded_bytes D + int (length chunk)\<rparr>) \<noteq> 0"
          using nz by (simp add: D1_def)
        have IH: "(\<forall>X \<in> insert (D3, fs3) (set tr1).
                     copy_inv D2 fs1 dst (content g1) (remaining src1) X)
              \<and> (r1 = None \<longrightarrow> (\<exists>g'. fs3 dst = Some g' \<and> content g' = content g1 @ remaining src1))"
          using "1.IH" [OF rd refl False refl refl refl nz2(1) nz' refl
                  rec [unfolded D2_def D1_def fs1_def] fs1(1) [unfolded fs1_def]]
          by (simp add: D2_def D1_def fs1_def)
        have lift: "\<And>X. copy_inv D2 fs1 dst (content g1) (remaining src1) X
                      \<Longrightarrow> copy_inv D fs dst (content g) (remaining src) X"
          using copy_inv_step [OF _ st2 db2 fs1(2)] cg1 ch(2) by simp
        have snap: "copy_inv D fs dst (content g) (remaining src) (D2, fs1)"
          by (rule lift) (use copy_inv_start [where fs = fs1 and dst = dst and g = g1 and D = D2
                    and rest = "remaining src1", OF fs1(1)] in simp)
        have full: "content g1 @ remaining src1 = content g @ remaining src"
          using ch by (simp add: g1_def)
        have a: "\<forall>X \<in> insert (D', fs') (set tr). copy_inv D fs dst (content g) (remaining src) X"
          unfolding res using IH lift snap by simp
        have b: "r = None \<longrightarrow> (\<exists>g'. fs' dst = Some g' \<and> content g' = content g @ remaining src)"
          unfolding res using IH full by simp
        from a b show ?thesis ..
      qed
    qed
  qed
qed


lemma copy_inv_fs:
  "copy_inv D fs1 dst c0 rest X \<Longrightarrow> \<forall>p. p \<noteq> dst \<longrightarrow> fs1 p = fs p
   \<Longrightarrow> copy_inv D fs dst c0 rest X"
  unfolding copy_inv_def by simp

lemma copy_file_inv:
  assumes cf: "copy_file P source destination tsz D fs = (r, D', fs', tr)"
    and f: "fs source = Some f"
  shows "(\<forall>X \<in> insert (D', fs') (set tr).
            copy_inv D fs destination [] (copied_data source destination f) X)
       \<and> (r = None \<longrightarrow> (\<exists>g'. fs' destination = Some g'
                           \<and> content g' = copied_data source destination f))"
proof -
  define src where "src = \<lparr>h_path = source, h_data = content f, h_pos = 0, h_calls = 0, h_spans = []\<rparr>"
  define src1 where "src1 = (if destination = source then src\<lparr>h_data := []\<rparr> else src)"
  define fs1 where "fs1 = open_wb P fs destination"
  define g where "g = \<lparr>content = [], st_mtime = mtime_on_write P destination\<rparr>"
  have cc: "copy_chunks P src1 destination tsz 0 D fs1 = (r, D', fs', tr)"
    using cf f by (auto simp: copy_file_def open_rb_def Let_def src_def src1_def fs1_def)
  have g: "fs1 destination = Some g" and other: "\<forall>p. p \<noteq> destination \<longrightarrow> fs1 p = fs p"
    by (simp_all add: fs1_def open_wb_def g_def)
  have rem: "remaining src1 = copied_data source destination f"
    by (simp add: remaining_def src1_def src_def copied_data_def)
  have cg: "content g = []" by (simp add: g_def)
  from copy_chunks_inv [OF cc g]
  have "(\<forall>X \<in> insert (D', fs') (set tr).
            copy_inv D fs1 destination [] (copied_data source destination f) X)
       \<and> (r = None \<longrightarrow> (\<exists>g'. fs' destination = Some g'
                           \<and> content g' = copied_data source destination f))"
    by (simp add: rem cg)
  then show ?thesis using copy_inv_fs [OF _ other] by blast
qed

lemma process_entry_cases:
  assumes "process_entry P (source, destination, sz) D fs = (oc, D', fs', tr)"
  shows "(mkdir_fails P destination \<and> oc = Critical
            \<and> D' = D\<lparr>status_text := CriticalError OSError\<rparr> \<and> fs' = fs \<and> tr = [])
       \<or> (\<not> mkdir_fails P destination \<and> fs source = None \<and> oc = NoSource
            \<and> D' = update_progress ((announce D)\<lparr>status_text := SourceNotFound source\<rparr>)
            \<and> fs' = fs \<and> tr = [])
       \<or> (\<exists>f e D2 fs2. \<not> mkdir_fails P destination \<and> fs source = Some f
            \<and> copy_file P source destination (length (content f)) (announce D) fs = (Some e, D2, fs2, tr)
            \<and> oc = CopyFailed \<and> D' = D2\<lparr>status_text := CopyError e\<rparr>
            \<and> fs' = unlink_if_exists fs2 destination)
       \<or> (\<exists>f e D2 fs2. \<not> mkdir_fails P destination \<and> fs source = Some f
            \<and> copy_file P source destination (length (content f)) (announce D) fs = (None, D2, fs2, tr)
            \<and> verify_download P D2 fs2 destination = Inl e
            \<and> oc = VerifyFailed \<and> D' = D2\<lparr>status_text := VerifyError e\<rparr>
            \<and> fs' = unlink_if_exists fs2 destination)
       \<or> (\<exists>f D2. \<not> mkdir_fails P destination \<and> fs source = Some f
            \<and> copy_file P source destination (length (content f)) (announce D) fs = (None, D2, fs', tr)
            \<and> verify_download P D2 fs' destination = Inr ()
            \<and> oc = Kept \<and> D' = update_progress D2)"
proof (cases "mkdir_fails P destination")
  case True
  then show ?thesis using assms by (auto simp: process_entry_def)
next
  case mk: False
  show ?thesis
  proof (cases "fs source")
    case None
    then show ?thesis using assms mk
      by (auto simp: process_entry_def Let_def announce_def)
  next
    case (Some f)
    obtain r D2 fs2 tr2 where
      cf: "copy_file P source destination (length (content f)) (announce D) fs = (r, D2, fs2, tr2)"
      by (metis prod_cases4)
    note defs = process_entry_def Let_def getsize_def announce_def
    show ?thesis
    proof (cases r)
      case r: (Some e)
      show ?thesis using assms mk Some cf [unfolded announce_def] r
        by (simp add: defs)
    next
      case r: None
      show ?thesis
      proof (cases "verify_download P D2 fs2 destination")
        case (Inl e)
        show ?thesis using assms mk Some cf [unfolded announce_def] r Inl
          by (simp add: defs)
      next
        case (Inr u)
        show ?thesis using assms mk Some cf [unfolded announce_def] r Inr
          by (simp add: defs)
      qed
    qed
  qed
qed


lemma announce_static: "same_static (announce D) D" "downloaded_bytes (announce D) = downloaded_bytes D"
  by (simp_all add: announce_def same_static_def)

lemma unlink_effect:
  "unlink_if_exists fs p p = None" "q \<noteq> p \<Longrightarrow> unlink_if_exists fs p q = fs q"
  by (simp_all add: unlink_if_exists_def)

lemma process_entry_sound:
  assumes pe: "process_entry P (source, destination, sz) D fs = (oc, D', fs', tr)"
  shows "same_static D' D
       \<and> downloaded_bytes D \<le> downloaded_bytes D'
       \<and> (\<forall>p. p \<noteq> destination \<longrightarrow> fs' p = fs p)
       \<and> (oc = CopyFailed \<or> oc = VerifyFailed \<longrightarrow> fs' destination = None)
       \<and> (oc = Critical \<or> oc = NoSource \<longrightarrow>
             fs' = fs \<and> tr = [] \<and> downloaded_bytes D' = downloaded_bytes D)
       \<and> (fs source = None \<longrightarrow> oc = Critical \<or> oc = NoSource)
       \<and> (\<forall>f. fs source = Some f \<longrightarrow>
             (\<forall>X \<in> set tr. copy_inv (announce D) fs destination []
                               (copied_data source destination f) X)
             \<and> downloaded_bytes D'
                 \<le> downloaded_bytes D + int (length (copied_data source destination f))
             \<and> (oc = Kept \<longrightarrow> (\<exists>g. fs' destination = Some g
                                  \<and> content g = copied_data source destination f)))"
  using process_entry_cases [OF pe]
proof (elim disjE exE conjE, goal_cases)
  case 1
  then show ?case by (simp add: same_static_def)
next
  case 2
  then show ?case by (simp add: same_static_def update_progress_def announce_def)
next
  case (3 f e D2 fs2)
  note inv = copy_file_inv [OF 3(3) 3(2)]
  from inv have X: "copy_inv (announce D) fs destination [] (copied_data source destination f) (D2, fs2)"
    and T: "\<forall>X \<in> set tr. copy_inv (announce D) fs destination [] (copied_data source destination f) X"
    by simp_all
  from X have "same_static D2 D" "downloaded_bytes D \<le> downloaded_bytes D2"
    "downloaded_bytes D2 \<le> downloaded_bytes D + int (length (copied_data source destination f))"
    "\<forall>p. p \<noteq> destination \<longrightarrow> fs2 p = fs p"
    using announce_static [of D] unfolding copy_inv_def by (auto intro: same_static_trans)
  then show ?case using 3 T
    by (simp add: same_static_def unlink_effect)
next
  case (4 f e D2 fs2)
  note inv = copy_file_inv [OF 4(3) 4(2)]
  from inv have X: "copy_inv (announce D) fs destination [] (copied_data source destination f) (D2, fs2)"
    and T: "\<forall>X \<in> set tr. copy_inv (announce D) fs destination [] (copied_data source destination f) X"
    by simp_all
  from X have "same_static D2 D" "downloaded_bytes D \<le> downloaded_bytes D2"
    "downloaded_bytes D2 \<le> downloaded_bytes D + int (length (copied_data source destination f))"
    "\<forall>p. p \<noteq> destination \<longrightarrow> fs2 p = fs p"
    using announce_static [of D] unfolding copy_inv_def by (auto intro: same_static_trans)
  then show ?case using 4 T
    by (simp add: same_static_def unlink_effect)
next
  case (5 f D2)
  note inv = copy_file_inv [OF 5(3) 5(2)]
  from inv have X: "copy_inv (announce D) fs destination [] (copied_data source destination f) (D2, fs')"
    and T: "\<forall>X \<in> set tr. copy_inv (announce D) fs destination [] (copied_data source destination f) X"
    and K: "\<exists>g. fs' destination = Some g \<and> content g = copied_data source destination f"
    by simp_all
  from X have "same_static D2 D" "downloaded_bytes D \<le> downloaded_bytes D2"
    "downloaded_bytes D2 \<le> downloaded_bytes D + int (length (copied_data source destination f))"
    "\<forall>p. p \<noteq> destination \<longrightarrow> fs' p = fs p"
    using announce_static [of D] unfolding copy_inv_def by (auto intro: same_static_trans)
  then show ?case using 5 T K
    by (simp add: same_static_def update_progress_def)
qed


lemma process_entries_step:
  assumes "process_entries P (e # rest) D fs = (ocs, D', fs', tr)"
  obtains oc D2 fs2 tr2 ocs' tr' where
    "process_entry P e (D\<lparr>download_queue := rest, current_download := Some e\<rparr>) fs = (oc, D2, fs2, tr2)"
    "process_entries P rest D2 fs2 = (ocs', D', fs', tr')"
    "ocs = oc # ocs'" "tr = tr2 @ tr'"
proof -
  obtain oc D2 fs2 tr2 where 1:
    "process_entry P e (D\<lparr>download_queue := rest, current_download := Some e\<rparr>) fs = (oc, D2, fs2, tr2)"
    by (metis prod_cases4)
  obtain ocs' D3 fs3 tr' where 2: "process_entries P rest D2 fs2 = (ocs', D3, fs3, tr')"
    by (metis prod_cases4)
  from assms 1 2 have "ocs = oc # ocs'" "D' = D3" "fs' = fs3" "tr = tr2 @ tr'"
    by (simp_all add: Let_def)
  with 1 2 that show thesis by blast
qed

lemma process_entries_shape:
  "process_entries P q D fs = (ocs, D', fs', tr) \<Longrightarrow>
     length ocs = length q
   \<and> files_requiring_download D' = files_requiring_download D
   \<and> size_requiring_download D' = size_requiring_download D
   \<and> total_size_bytes D' = total_size_bytes D
   \<and> (download_queue D = q \<longrightarrow> download_queue D' = [])"
proof (induction q arbitrary: D fs ocs D' fs' tr)
  case Nil
  then show ?case by simp
next
  case (Cons e rest)
  obtain s d sz where e: "e = (s, d, sz)" by (cases e)
  from Cons.prems obtain oc D2 fs2 tr2 ocs' tr' where
    pe: "process_entry P e (D\<lparr>download_queue := rest, current_download := Some e\<rparr>) fs = (oc, D2, fs2, tr2)"
    and rest: "process_entries P rest D2 fs2 = (ocs', D', fs', tr')"
    and ocs: "ocs = oc # ocs'"
    by (rule process_entries_step)
  from process_entry_sound [OF pe [unfolded e]]
  have st: "same_static D2 (D\<lparr>download_queue := rest, current_download := Some (s, d, sz)\<rparr>)"
    by simp
  then have q: "download_queue D2 = rest" by (simp add: same_static_def)
  from Cons.IH [OF rest] st q ocs show ?case by (simp add: same_static_def)
qed

lemma entry_sizes_nonneg:
  "\<forall>(s, d, sz) \<in> set q. 0 \<le> sz \<Longrightarrow> 0 \<le> entry_sizes q"
  unfolding entry_sizes_def by (induction q) auto

lemma copied_data_length: "length (copied_data s d f) \<le> length (content f)"
  by (simp add: copied_data_def)

lemma process_entries_bytes:
  "process_entries P q D fs = (ocs, D', fs', tr) \<Longrightarrow>
   \<forall>(s, d, sz) \<in> set q. 0 \<le> sz \<and> (\<forall>f. fs s = Some f \<longrightarrow> int (length (content f)) \<le> sz) \<Longrightarrow>
   \<forall>(s, d, sz) \<in> set q. \<forall>(s', d', sz') \<in> set q. d \<noteq> s' \<Longrightarrow>
   \<forall>X \<in> insert (D', fs') (set tr).
      total_size_bytes (fst X) = total_size_bytes D
    \<and> downloaded_bytes (fst X) \<le> downloaded_bytes D + entry_sizes q"
proof (induction q arbitrary: D fs ocs D' fs' tr)
  case Nil
  then show ?case by (simp add: entry_sizes_def)
next
  case (Cons e rest)
  obtain s d sz where e: "e = (s, d, sz)" by (cases e)
  define D1 where "D1 = D\<lparr>download_queue := rest, current_download := Some (s, d, sz)\<rparr>"
  from Cons.prems(1) obtain oc D2 fs2 tr2 ocs' tr' where
    pe: "process_entry P (s, d, sz) D1 fs = (oc, D2, fs2, tr2)"
    and rest: "process_entries P rest D2 fs2 = (ocs', D', fs', tr')"
    and tr: "tr = tr2 @ tr'"
    unfolding e D1_def by (rule process_entries_step)
  note snd = process_entry_sound [OF pe]
  have sz0: "0 \<le> sz" and szf: "\<And>f. fs s = Some f \<Longrightarrow> int (length (content f)) \<le> sz"
    using Cons.prems(2) e by auto
  have rest_nonneg: "0 \<le> entry_sizes rest"
    using Cons.prems(2) by (intro entry_sizes_nonneg) auto
  have sum: "entry_sizes (e # rest) = sz + entry_sizes rest"
    by (simp add: entry_sizes_def e)
  have st2: "same_static D2 D1" using snd by simp
  have tot2: "total_size_bytes D2 = total_size_bytes D"
    using st2 by (simp add: same_static_def D1_def)
  have db1: "downloaded_bytes D1 = downloaded_bytes D" by (simp add: D1_def)
  have step_bound: "downloaded_bytes D2 \<le> downloaded_bytes D + sz"
  proof (cases "fs s")
    case None
    then have "downloaded_bytes D2 = downloaded_bytes D1" using snd by blast
    then show ?thesis using sz0 db1 by simp
  next
    case (Some f)
    then have "downloaded_bytes D2 \<le> downloaded_bytes D1 + int (length (copied_data s d f))"
      using snd by blast
    then show ?thesis using szf [OF Some] copied_data_length [of s d f] db1 by linarith
  qed
  have snaps: "\<forall>X \<in> set tr2. total_size_bytes (fst X) = total_size_bytes D
                 \<and> downloaded_bytes (fst X) \<le> downloaded_bytes D + sz"
  proof (cases "fs s")
    case None
    then have "tr2 = []" using snd by blast
    then show ?thesis by simp
  next
    case (Some f)
    then have inv: "\<forall>X \<in> set tr2. copy_inv (announce D1) fs d [] (copied_data s d f) X"
      using snd by blast
    show ?thesis
    proof
      fix X assume "X \<in> set tr2"
      with inv have c: "copy_inv (announce D1) fs d [] (copied_data s d f) X" by blast
      then have "same_static (fst X) (announce D1)"
        and "downloaded_bytes (fst X) \<le> downloaded_bytes (announce D1) + int (length (copied_data s d f))"
        unfolding copy_inv_def by blast+
      then show "total_size_bytes (fst X) = total_size_bytes D
                 \<and> downloaded_bytes (fst X) \<le> downloaded_bytes D + sz"
        using szf [OF Some] copied_data_length [of s d f]
        by (simp add: same_static_def announce_def D1_def)
    qed
  qed
  have other: "\<forall>p. p \<noteq> d \<longrightarrow> fs2 p = fs p" using snd by blast
  have sizes2: "\<forall>(s', d', sz') \<in> set rest. 0 \<le> sz' \<and> (\<forall>f. fs2 s' = Some f \<longrightarrow> int (length (content f)) \<le> sz')"
  proof (clarify, intro conjI allI impI)
    fix s' d' sz' f
    assume m: "(s', d', sz') \<in> set rest"
    then show "0 \<le> sz'" using Cons.prems(2) by auto
    assume f: "fs2 s' = Some f"
    have "d \<noteq> s'" using Cons.prems(3) m e by fastforce
    then have "fs s' = Some f" using other f by simp
    then show "int (length (content f)) \<le> sz'" using Cons.prems(2) m by fastforce
  qed
  have disj2: "\<forall>(s, d, sz) \<in> set rest. \<forall>(s', d', sz') \<in> set rest. d \<noteq> s'"
    using Cons.prems(3) by auto
  note IH = Cons.IH [OF rest sizes2 disj2]
  show ?case
  proof
    fix X assume X: "X \<in> insert (D', fs') (set tr)"
    then consider "X \<in> set tr2" | "X \<in> insert (D', fs') (set tr')" using tr by auto
    then show "total_size_bytes (fst X) = total_size_bytes D
               \<and> downloaded_bytes (fst X) \<le> downloaded_bytes D + entry_sizes (e # rest)"
    proof cases
      case 1
      then show ?thesis using snaps rest_nonneg sum by fastforce
    next
      case 2
      then have "total_size_bytes (fst X) = total_size_bytes D2"
        and "downloaded_bytes (fst X) \<le> downloaded_bytes D2 + entry_sizes rest"
        using IH by blast+
      then show ?thesis using tot2 step_bound sum by linarith
    qed
  qed
qed

section \<open>The claims about the transfer\<close>




text \<open>
  C8, amended. No outcome of an entry aborts the session: every queued entry gets one
  pass of the loop and the queue is empty at the end. Failures are not recorded: the
  session always ends with the text that all files were downloaded and with the number
  and size of the files that the check had marked, whatever the outcomes were.
\<close>

theorem failures_not_in_summary:
  assumes "process_queue P D fs = (ocs, D', fs', tr)"
  shows "length ocs = length (download_queue D)
       \<and> download_queue D' = []
       \<and> status_text D' = AllDownloaded
       \<and> total_status_text D' = Finished (files_requiring_download D) (size_requiring_download D)
       \<and> last (page D') = (Finished (files_requiring_download D) (size_requiring_download D),
                            AllDownloaded)"
proof -
  define D1 where "D1 = D\<lparr>total_size_bytes := entry_sizes (download_queue D), downloaded_bytes := 0\<rparr>"
  obtain ocs2 D2 fs2 tr2 where
    run: "process_entries P (download_queue D1) D1 fs = (ocs2, D2, fs2, tr2)"
    by (metis prod_cases4)
  have q1: "download_queue D1 = download_queue D" by (simp add: D1_def)
  from assms run have res: "ocs = ocs2"
    "D' = update_progress (D2\<lparr>current_download := None, status_text := AllDownloaded,
            total_status_text := Finished (files_requiring_download D2) (size_requiring_download D2)\<rparr>)"
    by (simp_all add: process_queue_def Let_def D1_def entry_sizes_def)
  from process_entries_shape [OF run]
  have "length ocs2 = length (download_queue D)" "download_queue D2 = []"
    "files_requiring_download D2 = files_requiring_download D"
    "size_requiring_download D2 = size_requiring_download D"
    by (simp_all add: D1_def)
  then show ?thesis by (simp add: res update_progress_def)
qed

text \<open>
  C9, amended. The counter of downloaded bytes adds the length of every chunk written
  and is never clamped. It stays at most the total expected size at every suspension
  point and at the end, provided that the manifest size of every queued entry is not
  negative, no source file is larger than its manifest size, and no queued destination
  is a queued source.
\<close>

theorem downloaded_bytes_bounded:
  assumes "process_queue P D fs = (ocs, D', fs', tr)"
    and "\<forall>(s, d, sz) \<in> set (download_queue D).
           0 \<le> sz \<and> (\<forall>f. fs s = Some f \<longrightarrow> int (length (content f)) \<le> sz)"
    and "\<forall>(s, d, sz) \<in> set (download_queue D). \<forall>(s', d', sz') \<in> set (download_queue D). d \<noteq> s'"
  shows "\<forall>X \<in> insert (D', fs') (set tr). downloaded_bytes (fst X) \<le> total_size_bytes (fst X)"
proof -
  define D1 where "D1 = D\<lparr>total_size_bytes := entry_sizes (download_queue D), downloaded_bytes := 0\<rparr>"
  obtain ocs2 D2 fs2 tr2 where
    run: "process_entries P (download_queue D1) D1 fs = (ocs2, D2, fs2, tr2)"
    by (metis prod_cases4)
  have q1: "download_queue D1 = download_queue D" by (simp add: D1_def)
  from assms(1) run have res: "tr = tr2" "fs' = fs2"
    "D' = update_progress (D2\<lparr>current_download := None, status_text := AllDownloaded,
            total_status_text := Finished (files_requiring_download D2) (size_requiring_download D2)\<rparr>)"
    by (simp_all add: process_queue_def Let_def D1_def entry_sizes_def)
  from process_entries_bytes [OF run assms(2) [folded q1] assms(3) [folded q1]]
  have b: "\<forall>X \<in> insert (D2, fs2) (set tr2). downloaded_bytes (fst X) \<le> total_size_bytes (fst X)"
    by (simp add: D1_def)
  then have "downloaded_bytes D' \<le> total_size_bytes D'"
    by (simp add: res update_progress_def)
  with b show ?thesis by (simp add: res)
qed


section \<open>Concrete runs\<close>


lemmas hash_defs = calculate_fast_hash_def fast_hash_body_def open_rb_def read_handle_def
  getsize_def os_stat_def seek_end_def update_def encode_def hexdigest_def hex_lower_def
  hex_byte_def digit_char_def str_nat.simps

lemmas check_defs = check_files_def load_manifest_def manifest_of_def py_len_def truthy_def
  check_one_def mark_for_download_def update_progress_def Downloader_def get_size_def
  join_path_def path_name_def

lemmas queue_defs = start_file_check_def add_download_def process_queue_def process_entry_def
  copy_file_def open_wb_def write_bytes_def unlink_if_exists_def verify_download_def
  expected_hash_of_def relative_to_def chunk_size_def copy_chunks.simps queued_def sized_def
  announce_def

lemmas session_defs = session_outcomes_def session_fs_def session_page_def
  sizes_at_def counters_def entry_trace_def entry_fs_def entry_outcome_def queue_trace_def
  queue_outcomes_def queue_final_def







text \<open>
  C2. The source file has the bytes, the size and the fingerprint of its manifest record,
  and the destination does not exist yet. The copy is stamped with the time of the
  write, its fingerprint differs from the record, and the session deletes it.
\<close>

theorem matching_source_is_deleted:
  "calculate_fast_hash demo fs_src ''src/a.txt'' = hash rec_a
   \<and> map_option (\<lambda>f. int (length (content f))) (fs_src ''src/a.txt'') = size_opt rec_a
   \<and> session_outcomes (start_file_check demo fs_src (manifest_of [rec_a]) ''src'' ''dl'') = [VerifyFailed]
   \<and> session_fs (start_file_check demo fs_src (manifest_of [rec_a]) ''src'' ''dl'') ''dl/a.txt'' = None"
  by (simp add: hash_defs check_defs queue_defs session_defs demo_def fs_src_def rec_a_def Let_def)



text \<open>
  C8, as the specification states it, fails: one source is missing and one
  verification fails, both files are processed, and the last texts of the page say that
  two files of three bytes are finished and that all files were downloaded.
\<close>

theorem failures_not_in_summary_counterexample:
  "session_outcomes (start_file_check demo fs_src (manifest_of [rec_b, rec_a]) ''src'' ''dl'')
     = [NoSource, VerifyFailed]
   \<and> session_page (start_file_check demo fs_src (manifest_of [rec_b, rec_a]) ''src'' ''dl'')
     = [(Checking 1 2, FileMissing ''b.txt''), (Checking 2 2, FileMissing ''a.txt''),
        (FoundToDownload 2 2 3, Preparing),
        (Downloading 1 2 0 3, SourceNotFound ''src/b.txt''),
        (Downloading 2 2 0 3, CopyProgress ''a.txt'' 3 3),
        (Finished 2 3, AllDownloaded)]"
  by (simp add: hash_defs check_defs queue_defs session_defs demo_def fs_src_def rec_a_def
        rec_b_def Let_def)

theorem failures_not_in_summary_witness:
  "length (queue_outcomes (process_queue demo (queued rec_a) fs_src)) = 1
   \<and> status_text (queue_final (process_queue demo (queued rec_a) fs_src)) = AllDownloaded
   \<and> total_status_text (queue_final (process_queue demo (queued rec_a) fs_src)) = Finished 0 0"
proof -
  obtain ocs D' fs' tr where run: "process_queue demo (queued rec_a) fs_src = (ocs, D', fs', tr)"
    by (metis prod_cases4)
  have q: "length (download_queue (queued rec_a)) = 1"
    "files_requiring_download (queued rec_a) = 0" "size_requiring_download (queued rec_a) = 0"
    by (simp_all add: queued_def add_download_def Downloader_def Let_def)
  show ?thesis
    using failures_not_in_summary [OF run]
    by (simp add: run queue_outcomes_def queue_final_def q)
qed

text \<open>
  C9, as the specification states it, fails: the manifest gives the size 1 for a source
  of three bytes, and the counter reads 3 of 1 after the only chunk.
\<close>

theorem counter_exceeds_total_counterexample:
  "counters (queue_trace (process_queue demo (queued rec_small) fs_src)) = [(3, 1)]"
  by (simp add: hash_defs check_defs queue_defs session_defs demo_def fs_src_def rec_small_def Let_def)

theorem downloaded_bytes_bounded_witness:
  "downloaded_bytes (queue_final (process_queue demo (queued rec_a) fs_src))
     \<le> total_size_bytes (queue_final (process_queue demo (queued rec_a) fs_src))
   \<and> counters (queue_trace (process_queue demo (queued rec_a) fs_src)) = [(3, 3)]"
proof -
  obtain ocs D' fs' tr where run: "process_queue demo (queued rec_a) fs_src = (ocs, D', fs', tr)"
    by (metis prod_cases4)
  have q: "download_queue (queued rec_a) = [(''src/a.txt'', ''dl/a.txt'', 3)]"
    by (simp add: queued_def add_download_def Downloader_def Let_def rec_a_def join_path_def
          get_size_def)
  have h1: "\<forall>(s, d, sz) \<in> set (download_queue (queued rec_a)).
           0 \<le> sz \<and> (\<forall>f. fs_src s = Some f \<longrightarrow> int (length (content f)) \<le> sz)"
    by (simp add: q fs_src_def)
  have h2: "\<forall>(s, d, sz) \<in> set (download_queue (queued rec_a)).
           \<forall>(s', d', sz') \<in> set (download_queue (queued rec_a)). d \<noteq> s'"
    by (simp add: q)
  have a: "downloaded_bytes (queue_final (process_queue demo (queued rec_a) fs_src))
     \<le> total_size_bytes (queue_final (process_queue demo (queued rec_a) fs_src))"
    using downloaded_bytes_bounded [OF run h1 h2] by (simp add: run queue_final_def)
  have b: "counters (queue_trace (process_queue demo (queued rec_a) fs_src)) = [(3, 3)]"
    by (simp add: hash_defs check_defs queue_defs session_defs demo_def fs_src_def rec_a_def Let_def)
  from a b show ?thesis by simp
qed


end
